theory Spec2Isabelle
  imports Complex_Main
begin

section \<open>Numeric kernels of PyTransit: trapezoidal integration, limb-darkening evaluation, time binning\<close>

text \<open>
  The embedded functions are \<^verbatim>\<open>ntrapz\<close>, \<^verbatim>\<open>eval_ldm\<close>, \<^verbatim>\<open>eval_ldm_frozen\<close>,
  \<^verbatim>\<open>LDModel\<close> and \<^verbatim>\<open>LDTkLDModel\<close> of \<^verbatim>\<open>pytransit/models/ldtkldm.py\<close> and
  \<^verbatim>\<open>downsample_time\<close> of \<^verbatim>\<open>pytransit/lpf/tesslpf.py\<close>.

  A float64 is modelled by a real number: arithmetic is exact, and rounding, overflow and
  signed zeros are outside the model. The one non-finite value the code produces on purpose,
  NaN, is a constructor of its own in the time binner. One-dimensional arrays are lists,
  two- and three-dimensional arrays are nested lists. Every exception the code can raise is
  a value of \<open>error\<close>; the functions compiled with \<^verbatim>\<open>@njit\<close> do not check array bounds: the
  model stops with \<open>OutOfBounds\<close> where such a function would read outside an array, and a
  write outside an array stores nothing.
\<close>

datatype error =
    NotImplementedError
  | ZeroDivisionError
  | EmptyReduction
  | NegativeDimensions
  | EmptyRange
  | ShapeMismatch
  | InterpError
  | OutOfBounds

type_synonym array1 = "real list"
type_synonym array2 = "real list list"
type_synonym array3 = "real list list list"

subsection \<open>ntrapz\<close>

text \<open>
  \<^verbatim>\<open>for i in range(1, npt): ii += (x[i] - x[i - 1]) * 0.5 * (y[i] + y[i - 1])\<close>.
  The loop runs over the indices of \<open>x\<close>; \<open>y[i]\<close> is read without a bounds check.
\<close>

fun ntrapz_loop :: "array1 \<Rightarrow> array1 \<Rightarrow> nat list \<Rightarrow> real \<Rightarrow> error + real" where
  "ntrapz_loop x y [] ii = Inr ii"
| "ntrapz_loop x y (i # is) ii =
     (if i < length y
      then ntrapz_loop x y is (ii + (x ! i - x ! (i - 1)) * 0.5 * (y ! i + y ! (i - 1)))
      else Inl OutOfBounds)"

definition ntrapz :: "array1 \<Rightarrow> array1 \<Rightarrow> error + real" where
  "ntrapz x y = (let npt = length x in ntrapz_loop x y [1..<npt] 0)"

definition trapezoid_sum :: "array1 \<Rightarrow> array1 \<Rightarrow> real" where
  "trapezoid_sum x y = (\<Sum>i = 1..<length x. (x ! i - x ! (i - 1)) * (y ! i + y ! (i - 1)) / 2)"


subsection \<open>NumPy functions used by the kernels\<close>

text \<open>
  \<open>a * b\<close> on two one-dimensional arrays multiplies element by element; an array of
  length one is broadcast, any other pair of different lengths is a shape error.
\<close>

definition mul_arr :: "array1 \<Rightarrow> array1 \<Rightarrow> error + array1" where
  "mul_arr a b =
     (if length a = length b then Inr (map2 (*) a b)
      else if length b = 1 then Inr (map (\<lambda>u. u * b ! 0) a)
      else if length a = 1 then Inr (map (\<lambda>v. a ! 0 * v) b)
      else Inl ShapeMismatch)"

text \<open>
  \<^verbatim>\<open>interp(x, xp, fp)\<close> is NumPy's; its interpolation rule is a parameter \<open>I\<close> of the model
  (the value at one point \<open>x\<close>, given the sample points \<open>xp\<close> and values \<open>fp\<close>), and only its
  two input checks are written out. \<open>lin_interp\<close> is the rule NumPy documents: the last value
  right of the last sample point, the first value left of the first one, and piecewise linear
  between increasing sample points (for sample points that do not increase NumPy leaves the
  value between them unspecified).
\<close>

type_synonym interp_fn = "real \<Rightarrow> array1 \<Rightarrow> array1 \<Rightarrow> real"

definition interp :: "interp_fn \<Rightarrow> array1 \<Rightarrow> array1 \<Rightarrow> array1 \<Rightarrow> error + array1" where
  "interp I x xp fp =
     (if xp = [] then Inl InterpError
      else if length fp \<noteq> length xp then Inl InterpError
      else Inr (map (\<lambda>v. I v xp fp) x))"

fun lin_scan :: interp_fn where
  "lin_scan x (x0 # x1 # xp) (f0 # f1 # fp) =
     (if x < x1 then f0 + (f1 - f0) / (x1 - x0) * (x - x0)
      else lin_scan x (x1 # xp) (f1 # fp))"
| "lin_scan x xp (f0 # fp) = f0"
| "lin_scan x xp [] = 0"

definition lin_interp :: interp_fn where
  "lin_interp x xp fp =
     (if xp = [] \<or> fp = [] then 0
      else if last xp < x then last fp
      else if x < hd xp then hd fp
      else lin_scan x xp fp)"

text \<open>
  \<^verbatim>\<open>trapz(y, x)\<close> is \<^verbatim>\<open>(diff(x) * (y[1:] + y[:-1]) / 2.0).sum()\<close>.
\<close>

definition diff :: "array1 \<Rightarrow> array1" where
  "diff x = map2 (\<lambda>b a. b - a) (tl x) (butlast x)"

definition trapz :: "array1 \<Rightarrow> array1 \<Rightarrow> error + real" where
  "trapz y x =
     (case mul_arr (diff x) (map2 (+) (tl y) (butlast y)) of
        Inl e \<Rightarrow> Inl e
      | Inr t \<Rightarrow> Inr (sum_list (map (\<lambda>v. v / 2) t)))"

definition linspace :: "real \<Rightarrow> real \<Rightarrow> nat \<Rightarrow> array1" where
  "linspace start stop num = map (\<lambda>k. start + real k * ((stop - start) / real (num - 1))) [0..<num]"

text \<open>
  The random generators. A generator is the sequence of raw numbers it will produce and
  the count of those already used; \<^verbatim>\<open>randint(low, high)\<close> reduces the next raw number into
  \<open>[low, high)\<close> and fails on an empty range; with \<^verbatim>\<open>size=n\<close> the compiled code draws \<open>n\<close>
  times, so that no draw and no failure happens for \<open>n = 0\<close>. The interpreter's \<^verbatim>\<open>numpy.random\<close> and the
  generator of the compiled functions are two separate states.
\<close>

record rng =
  raw :: "nat \<Rightarrow> nat"
  used :: nat

definition randint :: "int \<Rightarrow> int \<Rightarrow> rng \<Rightarrow> error + (int \<times> rng)" where
  "randint low high g =
     (if high \<le> low then Inl EmptyRange
      else Inr (low + int (raw g (used g)) mod (high - low), g\<lparr>used := used g + 1\<rparr>))"

definition randint_size :: "int \<Rightarrow> int \<Rightarrow> nat \<Rightarrow> rng \<Rightarrow> error + (int list \<times> rng)" where
  "randint_size low high n g =
     (if high \<le> low \<and> 0 < n then Inl EmptyRange
      else Inr (map (\<lambda>k. low + int (raw g (used g + k)) mod (high - low)) [0..<n],
                g\<lparr>used := used g + n\<rparr>))"

record env =
  np_random :: rng
  nb_random :: rng

subsection \<open>eval_ldm\<close>

text \<open>
  \<^verbatim>\<open>ldps[ipb, k]\<close>: one profile of the library, by passband and sample index (a negative
  index counts from the end).
\<close>

definition get_profile :: "array3 \<Rightarrow> nat \<Rightarrow> int \<Rightarrow> error + array1" where
  "get_profile ldps ipb k =
     (if ipb < length ldps
      then (let n = int (length (ldps ! ipb)); j = (if k < 0 then n + k else k)
            in if 0 \<le> j \<and> j < n then Inr (ldps ! ipb ! nat j) else Inl OutOfBounds)
      else Inl OutOfBounds)"

definition zeros2 :: "nat \<Rightarrow> nat \<Rightarrow> array2" where
  "zeros2 n0 n1 = replicate n0 (replicate n1 0)"

definition zeros3 :: "nat \<Rightarrow> nat \<Rightarrow> nat \<Rightarrow> array3" where
  "zeros3 n0 n1 n2 = replicate n0 (replicate n1 (replicate n2 0))"

text \<open>
  The body of the two loops:
  \<^verbatim>\<open>ldp[ipv, ipb] = interp(emu, mu, ldps[ipb, iis[ipv]])\<close> and
  \<^verbatim>\<open>ldi[ipv, ipb] = -2 * pi * ntrapz(z, z * ldps[ipb, iis[ipv]])\<close>.
\<close>

definition eval_ldm_body ::
  "interp_fn \<Rightarrow> array1 \<Rightarrow> array1 \<Rightarrow> array1 \<Rightarrow> array3 \<Rightarrow> int list \<Rightarrow> nat \<Rightarrow> nat \<Rightarrow>
   array3 \<times> array2 \<Rightarrow> error + (array3 \<times> array2)" where
  "eval_ldm_body I emu mu z ldps iis ipv ipb s =
     (case s of (ldp, ldi) \<Rightarrow>
     (case get_profile ldps ipb (iis ! ipv) of Inl e \<Rightarrow> Inl e | Inr p1 \<Rightarrow>
     (case interp I emu mu p1 of Inl e \<Rightarrow> Inl e | Inr row \<Rightarrow>
     (case get_profile ldps ipb (iis ! ipv) of Inl e \<Rightarrow> Inl e | Inr p2 \<Rightarrow>
     (case mul_arr z p2 of Inl e \<Rightarrow> Inl e | Inr zp \<Rightarrow>
     (case ntrapz z zp of Inl e \<Rightarrow> Inl e | Inr ii \<Rightarrow>
        Inr (ldp[ipv := (ldp ! ipv)[ipb := row]],
             ldi[ipv := (ldi ! ipv)[ipb := - 2 * pi * ii]])))))))"

fun eval_ldm_pbs ::
  "interp_fn \<Rightarrow> array1 \<Rightarrow> array1 \<Rightarrow> array1 \<Rightarrow> array3 \<Rightarrow> int list \<Rightarrow> nat \<Rightarrow> nat list \<Rightarrow>
   array3 \<times> array2 \<Rightarrow> error + (array3 \<times> array2)" where
  "eval_ldm_pbs I emu mu z ldps iis ipv [] s = Inr s"
| "eval_ldm_pbs I emu mu z ldps iis ipv (ipb # ipbs) s =
     (case eval_ldm_body I emu mu z ldps iis ipv ipb s of
        Inl e \<Rightarrow> Inl e
      | Inr s' \<Rightarrow> eval_ldm_pbs I emu mu z ldps iis ipv ipbs s')"

fun eval_ldm_pvs ::
  "interp_fn \<Rightarrow> array1 \<Rightarrow> array1 \<Rightarrow> array1 \<Rightarrow> array3 \<Rightarrow> int list \<Rightarrow> nat \<Rightarrow> nat list \<Rightarrow>
   array3 \<times> array2 \<Rightarrow> error + (array3 \<times> array2)" where
  "eval_ldm_pvs I emu mu z ldps iis npb [] s = Inr s"
| "eval_ldm_pvs I emu mu z ldps iis npb (ipv # ipvs) s =
     (case eval_ldm_pbs I emu mu z ldps iis ipv [0..<npb] s of
        Inl e \<Rightarrow> Inl e
      | Inr s' \<Rightarrow> eval_ldm_pvs I emu mu z ldps iis npb ipvs s')"

definition eval_ldm ::
  "interp_fn \<Rightarrow> rng \<Rightarrow> array1 \<Rightarrow> array1 \<Rightarrow> array1 \<Rightarrow> array3 \<Rightarrow> int \<Rightarrow> int \<Rightarrow>
   (error + (array3 \<times> array2)) \<times> rng" where
  "eval_ldm I g emu mu z ldps npv nsamples =
     (let npb = length ldps in
      if npv < 0 then (Inl NegativeDimensions, g)
      else
        let ldp = zeros3 (nat npv) npb (length emu);
            ldi = zeros2 (nat npv) npb
        in case randint_size 0 nsamples (nat npv) g of
             Inl e \<Rightarrow> (Inl e, g)
           | Inr (iis, g') \<Rightarrow>
               (eval_ldm_pvs I emu mu z ldps iis npb [0..<nat npv] (ldp, ldi), g'))"

subsection \<open>eval_ldm_frozen\<close>

text \<open>
  The first loop fills row 0:
  \<^verbatim>\<open>ldp[0, ipb] = interp(emu, mu, mldps[ipb])\<close> and
  \<^verbatim>\<open>ldi[0, ipb] = -2 * pi * ntrapz(z, z * mldps[ipb])\<close>; with \<open>npv = 0\<close> there is
  no row 0, the two writes store nothing and the arrays stay empty. The second loop copies row 0 into the rows \<open>1..npv-1\<close>.
\<close>

definition eval_ldm_frozen_body ::
  "interp_fn \<Rightarrow> array1 \<Rightarrow> array1 \<Rightarrow> array1 \<Rightarrow> array2 \<Rightarrow> nat \<Rightarrow>
   array3 \<times> array2 \<Rightarrow> error + (array3 \<times> array2)" where
  "eval_ldm_frozen_body I emu mu z mldps ipb s =
     (case s of (ldp, ldi) \<Rightarrow>
     (case interp I emu mu (mldps ! ipb) of Inl e \<Rightarrow> Inl e | Inr row \<Rightarrow>
     (case mul_arr z (mldps ! ipb) of Inl e \<Rightarrow> Inl e | Inr zp \<Rightarrow>
     (case ntrapz z zp of Inl e \<Rightarrow> Inl e | Inr ii \<Rightarrow>
        Inr (if ldp = [] then ldp else ldp[0 := (ldp ! 0)[ipb := row]],
             if ldi = [] then ldi else ldi[0 := (ldi ! 0)[ipb := - 2 * pi * ii]])))))"

fun eval_ldm_frozen_pbs ::
  "interp_fn \<Rightarrow> array1 \<Rightarrow> array1 \<Rightarrow> array1 \<Rightarrow> array2 \<Rightarrow> nat list \<Rightarrow>
   array3 \<times> array2 \<Rightarrow> error + (array3 \<times> array2)" where
  "eval_ldm_frozen_pbs I emu mu z mldps [] s = Inr s"
| "eval_ldm_frozen_pbs I emu mu z mldps (ipb # ipbs) s =
     (case eval_ldm_frozen_body I emu mu z mldps ipb s of
        Inl e \<Rightarrow> Inl e
      | Inr s' \<Rightarrow> eval_ldm_frozen_pbs I emu mu z mldps ipbs s')"

fun copy_rows :: "nat list \<Rightarrow> array3 \<times> array2 \<Rightarrow> array3 \<times> array2" where
  "copy_rows [] s = s"
| "copy_rows (i # is) (ldp, ldi) = copy_rows is (ldp[i := ldp ! 0], ldi[i := ldi ! 0])"

definition eval_ldm_frozen ::
  "interp_fn \<Rightarrow> array1 \<Rightarrow> array1 \<Rightarrow> array1 \<Rightarrow> array2 \<Rightarrow> int \<Rightarrow> error + (array3 \<times> array2)" where
  "eval_ldm_frozen I emu mu z mldps npv =
     (let npb = length mldps in
      if npv < 0 then Inl NegativeDimensions
      else
        let ldp = zeros3 (nat npv) npb (length emu);
            ldi = zeros2 (nat npv) npb
        in case eval_ldm_frozen_pbs I emu mu z mldps [0..<npb] (ldp, ldi) of
             Inl e \<Rightarrow> Inl e
           | Inr s \<Rightarrow> Inr (copy_rows [1..<nat npv] s))"

subsection \<open>LDModel and LDTkLDModel\<close>

text \<open>
  \<^verbatim>\<open>LDModel.__init__\<close> builds the integration grid; \<^verbatim>\<open>LDModel.__call__\<close> raises, and a
  subclass overrides it. \<^verbatim>\<open>LDModel.integrate\<close> calls \<^verbatim>\<open>self(...)\<close>, the \<^verbatim>\<open>__call__\<close> of the
  object's own class, which is the first argument here.
\<close>

record LDModel =
  int_z :: array1
  int_mu :: array1

definition LDModel_init :: LDModel where
  "LDModel_init =
     (let iz = linspace 0 1 200
      in \<lparr>int_z = iz, int_mu = map (\<lambda>v. sqrt (1 - v ^ 2)) iz\<rparr>)"

definition LDModel_call :: "array1 \<Rightarrow> 'x \<Rightarrow> error + array1" where
  "LDModel_call emu x = Inl NotImplementedError"

definition LDModel_integrate ::
  "(array1 \<Rightarrow> 'x \<Rightarrow> error + array1) \<Rightarrow> 'a LDModel_scheme \<Rightarrow> 'x \<Rightarrow> error + real" where
  "LDModel_integrate call self x =
     (case call (int_mu self) x of Inl e \<Rightarrow> Inl e | Inr prof \<Rightarrow>
     (case mul_arr (int_z self) prof of Inl e \<Rightarrow> Inl e | Inr y \<Rightarrow>
     (case trapz y (int_z self) of Inl e \<Rightarrow> Inl e | Inr t \<Rightarrow>
        Inr (2 * pi * t))))"

text \<open>
  The fields of an \<^verbatim>\<open>LDTkLDModel\<close> that the evaluation reads or writes (\<open>self_i\<close> is \<^verbatim>\<open>_i\<close>).
  The profile set creator and the profile set are external objects, used only by the
  constructor.
\<close>

record LDTkLDModel = LDModel +
  self_i :: int
  self_npb :: nat
  self_nsamples :: int
  self_frozen :: bool
  self_z :: array1
  self_mu :: array1
  self_profiles :: array3
  self_mean_profiles :: array2

text \<open>
  \<^verbatim>\<open>LDTkLDModel.__call__(mu, x)\<close>; \<open>x\<close> is \<open>None\<close> or a batch of parameter vectors, and
  \<open>batch_size\<close> is \<^verbatim>\<open>1 if x is None else x.shape[0]\<close>.
  The result is the value returned or the exception raised, the object after the call and
  the two generators after the call.
\<close>

definition batch_size :: "array2 option \<Rightarrow> int" where
  "batch_size x = (case x of None \<Rightarrow> 1 | Some rows \<Rightarrow> int (length rows))"

definition LDTkLDModel_call ::
  "interp_fn \<Rightarrow> LDTkLDModel \<Rightarrow> env \<Rightarrow> array1 \<Rightarrow> array2 option \<Rightarrow>
   (error + (array3 \<times> array2)) \<times> LDTkLDModel \<times> env" where
  "LDTkLDModel_call I self w emu x =
     (let npv = batch_size x
      in case randint 0 (self_nsamples self) (np_random w) of
           Inl e \<Rightarrow> (Inl e, self, w)
         | Inr (i, g) \<Rightarrow>
             (let self' = self\<lparr>self_i := i\<rparr>; w' = w\<lparr>np_random := g\<rparr>
              in if self_frozen self'
                 then (eval_ldm_frozen I emu (self_mu self') (self_z self')
                         (self_mean_profiles self') npv, self', w')
                 else (case eval_ldm I (nb_random w') emu (self_mu self') (self_z self')
                              (self_profiles self') npv (self_nsamples self') of
                         (r, g') \<Rightarrow> (r, self', w'\<lparr>nb_random := g'\<rparr>))))"

definition LDTkLDModel_integrate :: "LDTkLDModel \<Rightarrow> 'x \<Rightarrow> error + real" where
  "LDTkLDModel_integrate self x = Inl NotImplementedError"

subsection \<open>downsample_time\<close>

text \<open>
  The three output arrays hold float64 values that may be NaN.
\<close>

datatype float64 = Fin real | NaN

fun isfinite :: "float64 \<Rightarrow> bool" where
  "isfinite (Fin v) = True"
| "isfinite NaN = False"

text \<open>
  \<^verbatim>\<open>a.max()\<close> and \<^verbatim>\<open>a.min()\<close> raise on an empty array. \<^verbatim>\<open>digitize(x, bins)\<close> with increasing
  \<open>bins\<close> is the number of leading edges that are \<open>\<le> x\<close>. \<^verbatim>\<open>a[bmask]\<close> keeps the elements
  of \<open>a\<close> where the mask is true; the mask has the length of \<open>time\<close>, a longer \<open>vals\<close> is
  masked over its first elements and a shorter one is read beyond its end.
\<close>

definition amax :: "array1 \<Rightarrow> error + real" where
  "amax a = (case a of [] \<Rightarrow> Inl EmptyReduction | v # vs \<Rightarrow> Inr (fold max vs v))"

definition amin :: "array1 \<Rightarrow> error + real" where
  "amin a = (case a of [] \<Rightarrow> Inl EmptyReduction | v # vs \<Rightarrow> Inr (fold min vs v))"

definition arange :: "int \<Rightarrow> int list" where
  "arange n = map int [0..<nat n]"

definition digitize :: "real \<Rightarrow> array1 \<Rightarrow> int" where
  "digitize x bins = int (length (takeWhile (\<lambda>e. e \<le> x) bins))"

definition select :: "bool list \<Rightarrow> 'a list \<Rightarrow> 'a list" where
  "select bmask a = map snd (filter fst (zip bmask a))"

definition mean :: "array1 \<Rightarrow> real" where
  "mean a = sum_list a / real (length a)"

definition std :: "array1 \<Rightarrow> real" where
  "std a = sqrt (mean (map (\<lambda>v. (v - mean a) ^ 2) a))"

definition bin_edges :: "array1 \<Rightarrow> real \<Rightarrow> int list \<Rightarrow> array1" where
  "bin_edges time inttime bins = map (\<lambda>b. time ! 0 + real_of_int b * inttime) bins"

text \<open>
  The body of the loop over the bins: \<open>i\<close> is the position and \<open>bid\<close> the bin number.
\<close>

definition bin_body ::
  "array1 \<Rightarrow> array1 \<Rightarrow> int list \<Rightarrow> nat \<times> int \<Rightarrow>
   float64 list \<times> float64 list \<times> float64 list \<Rightarrow>
   error + (float64 list \<times> float64 list \<times> float64 list)" where
  "bin_body time vals bids ib s =
     (case ib of (i, bid) \<Rightarrow> (case s of (bt, bv, be) \<Rightarrow>
      let bmask = map (\<lambda>b. bid = b) bids;
          bsum = length (filter id bmask)
      in if bsum > 0
         then if True \<in> set (drop (length vals) bmask) then Inl OutOfBounds
              else
                let bt' = bt[i := Fin (mean (select bmask time))];
                    bv' = bv[i := Fin (mean (select bmask vals))]
                in if bsum > 2
                   then Inr (bt', bv', be[i := Fin (std (select bmask vals) / sqrt (real bsum))])
                   else Inr (bt', bv', be[i := NaN])
         else Inr (bt, bv, be)))"

fun bin_loop ::
  "array1 \<Rightarrow> array1 \<Rightarrow> int list \<Rightarrow> (nat \<times> int) list \<Rightarrow>
   float64 list \<times> float64 list \<times> float64 list \<Rightarrow>
   error + (float64 list \<times> float64 list \<times> float64 list)" where
  "bin_loop time vals bids [] s = Inr s"
| "bin_loop time vals bids (ib # ibs) s =
     (case bin_body time vals bids ib s of
        Inl e \<Rightarrow> Inl e
      | Inr s' \<Rightarrow> bin_loop time vals bids ibs s')"

definition downsample_time ::
  "array1 \<Rightarrow> array1 \<Rightarrow> real \<Rightarrow> error + (float64 list \<times> float64 list \<times> float64 list)" where
  "downsample_time time vals inttime =
     (case amax time of Inl e \<Rightarrow> Inl e | Inr tmax \<Rightarrow>
     (case amin time of Inl e \<Rightarrow> Inl e | Inr tmin \<Rightarrow>
        let duration = tmax - tmin
        in if inttime = 0 then Inl ZeroDivisionError
           else
             let nbins = \<lceil>duration / inttime\<rceil>;
                 bins = arange nbins;
                 edges = bin_edges time inttime bins;
                 bids = map (\<lambda>t. digitize t edges - 1) time
             in if nbins < 0 then Inl NegativeDimensions
                else
                  let bt = replicate (nat nbins) NaN;
                      bv = replicate (nat nbins) (Fin 0);
                      be = replicate (nat nbins) (Fin 0)
                  in (case bin_loop time vals bids (enumerate 0 bins) (bt, bv, be) of
                        Inl e \<Rightarrow> Inl e
                      | Inr (bt, bv, be) \<Rightarrow>
                          (let m = map isfinite be
                           in Inr (select m bt, select m bv, select m be)))))"

subsection \<open>What the claims speak of\<close>

text \<open>
  The profile interpolated onto the caller's grid and the disk-integrated coefficient of one
  library profile \<open>p\<close>, as the specification words them; and the shape of a library the
  profile set creator delivers: \<open>mu\<close> and \<open>z\<close> of one length, at least \<open>nsamples\<close> profiles per
  passband, every profile as long as the grid.
\<close>

definition ldm_row :: "interp_fn \<Rightarrow> array1 \<Rightarrow> array1 \<Rightarrow> array1 \<Rightarrow> array1" where
  "ldm_row I emu mu p = map (\<lambda>v. I v mu p) emu"

definition ldm_coeff :: "array1 \<Rightarrow> array1 \<Rightarrow> real" where
  "ldm_coeff z p = - (2 * pi * trapezoid_sum z (map2 (*) z p))"

definition library_ok :: "array1 \<Rightarrow> array1 \<Rightarrow> array3 \<Rightarrow> int \<Rightarrow> bool" where
  "library_ok mu z ldps nsamples \<longleftrightarrow>
     mu \<noteq> [] \<and> length z = length mu \<and> 0 < nsamples \<and>
     (\<forall>pb \<in> set ldps. nat nsamples \<le> length pb \<and> (\<forall>p \<in> set pb. length p = length mu))"


section \<open>Properties\<close>

subsection \<open>The trapezoidal integrator\<close>

lemma ntrapz_loop_sum:
  "\<forall>i \<in> set is. i < length y \<Longrightarrow>
   ntrapz_loop x y is ii =
     Inr (ii + (\<Sum>i \<leftarrow> is. (x ! i - x ! (i - 1)) * (y ! i + y ! (i - 1)) / 2))"
proof (induction "is" arbitrary: ii)
  case Nil
  then show ?case by simp
next
  case (Cons i "is")
  have "ntrapz_loop x y (i # is) ii =
          ntrapz_loop x y is (ii + (x ! i - x ! (i - 1)) * 0.5 * (y ! i + y ! (i - 1)))"
    using Cons.prems by simp
  also have "\<dots> = Inr (ii + (x ! i - x ! (i - 1)) * 0.5 * (y ! i + y ! (i - 1))
                      + (\<Sum>i \<leftarrow> is. (x ! i - x ! (i - 1)) * (y ! i + y ! (i - 1)) / 2))"
    using Cons.prems by (intro Cons.IH) simp
  finally show ?case by simp
qed

lemma ntrapz_trapezoid_sum:
  assumes "length x \<le> length y"
  shows "ntrapz x y = Inr (trapezoid_sum x y)"
proof -
  have "\<forall>i \<in> set [1..<length x]. i < length y"
    using assms by auto
  then show ?thesis
    by (simp add: ntrapz_def trapezoid_sum_def ntrapz_loop_sum interv_sum_list_conv_sum_set_nat)
qed

lemma ntrapz_short:
  assumes "length x \<le> 1"
  shows "ntrapz x y = Inr 0"
proof -
  have "[1..<length x] = []"
    using assms by simp
  then show ?thesis
    by (simp only: ntrapz_def Let_def ntrapz_loop.simps)
qed


text \<open>
  Claim C9. For two sequences of the same length, \<^verbatim>\<open>ntrapz\<close> returns the trapezoidal sum
  of \<open>(x[i] - x[i-1]) * (y[i] + y[i-1]) / 2\<close> over \<open>i = 1..n-1\<close>; for an input of length 0 or 1
  it returns 0 and raises nothing.
\<close>

theorem ntrapz_trapezoidal_rule:
  "(length x = length y \<longrightarrow>
      ntrapz x y = Inr (\<Sum>i = 1..<length x. (x ! i - x ! (i - 1)) * (y ! i + y ! (i - 1)) / 2))
   \<and> (length x \<le> 1 \<longrightarrow> ntrapz x y = Inr 0)"
  using ntrapz_trapezoid_sum [of x y] ntrapz_short [of x y]
  by (simp add: trapezoid_sum_def)

theorem ntrapz_trapezoidal_rule_witness:
  "ntrapz [0, 1, 2] [1, 1, 1] = Inr 2 \<and> ntrapz [5] [7] = Inr 0 \<and> ntrapz [] [] = Inr 0"
  using ntrapz_trapezoidal_rule [of "[0, 1, 2]" "[1, 1, 1]"]
    ntrapz_trapezoidal_rule [of "[5]" "[7]"]
    ntrapz_trapezoidal_rule [of "[]" "[]"]
  by (simp add: eval_nat_numeral sum.atLeast_Suc_lessThan)

subsection \<open>The loops of eval_ldm\<close>

lemma fold_update_upt:
  "n \<le> length r \<Longrightarrow> fold (\<lambda>i r. r[i := f i]) [0..<n] r = map f [0..<n] @ drop n r"
proof (induction n)
  case 0
  then show ?case by simp
next
  case (Suc n)
  then have n: "n < length r" by simp
  have "fold (\<lambda>i r. r[i := f i]) [0..<Suc n] r = (map f [0..<n] @ drop n r)[n := f n]"
    using Suc by simp
  also have "\<dots> = map f [0..<n] @ (drop n r)[0 := f n]"
    by (simp add: list_update_append)
  also have "(drop n r)[0 := f n] = f n # drop (Suc n) r"
    using n by (simp add: Cons_nth_drop_Suc [symmetric])
  finally show ?case by simp
qed

lemma fold_update_upt_full:
  "length r = n \<Longrightarrow> fold (\<lambda>i r. r[i := f i]) [0..<n] r = map f [0..<n]"
  by (simp add: fold_update_upt)

lemma get_profile_ok:
  assumes "ipb < length ldps" and "0 \<le> k" and "nat k < length (ldps ! ipb)"
  shows "get_profile ldps ipb k = Inr (ldps ! ipb ! nat k)"
  using assms by (simp add: get_profile_def Let_def)

lemma eval_ldm_body_ok:
  assumes "library_ok mu z ldps nsamples" and "ipb < length ldps"
    and "0 \<le> iis ! ipv" and "iis ! ipv < nsamples"
  shows "eval_ldm_body I emu mu z ldps iis ipv ipb (ldp, ldi) =
           Inr (ldp[ipv := (ldp ! ipv)[ipb := ldm_row I emu mu (ldps ! ipb ! nat (iis ! ipv))]],
                ldi[ipv := (ldi ! ipv)[ipb := ldm_coeff z (ldps ! ipb ! nat (iis ! ipv))]])"
proof -
  let ?p = "ldps ! ipb ! nat (iis ! ipv)"
  have pb: "ldps ! ipb \<in> set ldps"
    using assms(2) by simp
  then have k: "nat (iis ! ipv) < length (ldps ! ipb)"
    using assms(1,3,4) by (fastforce simp: library_ok_def)
  then have "?p \<in> set (ldps ! ipb)"
    by simp
  then have len: "length ?p = length mu" "length ?p = length z" "mu \<noteq> []"
    using assms(1) pb by (auto simp: library_ok_def)
  have g: "get_profile ldps ipb (iis ! ipv) = Inr ?p"
    using assms(2,3) k by (rule get_profile_ok)
  have i: "interp I emu mu ?p = Inr (ldm_row I emu mu ?p)"
    using len by (simp add: interp_def ldm_row_def)
  have m: "mul_arr z ?p = Inr (map2 (*) z ?p)"
    using len by (simp add: mul_arr_def)
  have t: "ntrapz z (map2 (*) z ?p) = Inr (trapezoid_sum z (map2 (*) z ?p))"
    using len by (simp add: ntrapz_trapezoid_sum)
  show ?thesis
    by (simp add: eval_ldm_body_def g i m t ldm_coeff_def)
qed

lemma eval_ldm_pbs_ok:
  assumes "library_ok mu z ldps nsamples" and "\<forall>ipb \<in> set ipbs. ipb < length ldps"
    and "0 \<le> iis ! ipv" and "iis ! ipv < nsamples"
    and "ipv < length ldp" and "ipv < length ldi"
  shows "eval_ldm_pbs I emu mu z ldps iis ipv ipbs (ldp, ldi) =
           Inr (ldp[ipv := fold (\<lambda>ipb r. r[ipb := ldm_row I emu mu (ldps ! ipb ! nat (iis ! ipv))])
                             ipbs (ldp ! ipv)],
                ldi[ipv := fold (\<lambda>ipb r. r[ipb := ldm_coeff z (ldps ! ipb ! nat (iis ! ipv))])
                             ipbs (ldi ! ipv)])"
  using assms(2,5,6)
proof (induction ipbs arbitrary: ldp ldi)
  case Nil
  then show ?case by simp
next
  case (Cons ipb ipbs)
  have b: "ipb < length ldps" using Cons.prems(1) by simp
  show ?case
    using Cons.prems
    by (simp add: eval_ldm_body_ok [OF assms(1) b assms(3,4)] Cons.IH)
qed

lemma eval_ldm_pvs_ok:
  assumes "library_ok mu z ldps nsamples"
    and "\<forall>ipv \<in> set ipvs. ipv < n \<and> 0 \<le> iis ! ipv \<and> iis ! ipv < nsamples"
    and "length ldp = n" and "length ldi = n"
    and "\<forall>r \<in> set ldp. length r = length ldps" and "\<forall>r \<in> set ldi. length r = length ldps"
  shows "eval_ldm_pvs I emu mu z ldps iis (length ldps) ipvs (ldp, ldi) =
           Inr (fold (\<lambda>ipv l. l[ipv := map (\<lambda>ipb. ldm_row I emu mu (ldps ! ipb ! nat (iis ! ipv)))
                                          [0..<length ldps]]) ipvs ldp,
                fold (\<lambda>ipv l. l[ipv := map (\<lambda>ipb. ldm_coeff z (ldps ! ipb ! nat (iis ! ipv)))
                                          [0..<length ldps]]) ipvs ldi)"
  using assms(2-6)
proof (induction ipvs arbitrary: ldp ldi)
  case Nil
  then show ?case by simp
next
  case (Cons ipv ipvs)
  let ?rp = "map (\<lambda>ipb. ldm_row I emu mu (ldps ! ipb ! nat (iis ! ipv))) [0..<length ldps]"
  let ?ri = "map (\<lambda>ipb. ldm_coeff z (ldps ! ipb ! nat (iis ! ipv))) [0..<length ldps]"
  have v: "ipv < n" "0 \<le> iis ! ipv" "iis ! ipv < nsamples"
    using Cons.prems(1) by simp_all
  have lp: "length (ldp ! ipv) = length ldps" and li: "length (ldi ! ipv) = length ldps"
    using Cons.prems v(1) by simp_all
  have inner: "eval_ldm_pbs I emu mu z ldps iis ipv [0..<length ldps] (ldp, ldi) =
                 Inr (ldp[ipv := ?rp], ldi[ipv := ?ri])"
    using eval_ldm_pbs_ok [OF assms(1) _ v(2,3), of "[0..<length ldps]" ldp ldi I emu]
      Cons.prems v(1) lp li
    by (simp add: fold_update_upt_full)
  have sp: "\<forall>r \<in> set (ldp[ipv := ?rp]). length r = length ldps"
    using Cons.prems(4) set_update_subset_insert [of ldp ipv ?rp] by auto
  have si: "\<forall>r \<in> set (ldi[ipv := ?ri]). length r = length ldps"
    using Cons.prems(5) set_update_subset_insert [of ldi ipv ?ri] by auto
  have "eval_ldm_pvs I emu mu z ldps iis (length ldps) (ipv # ipvs) (ldp, ldi) =
          eval_ldm_pvs I emu mu z ldps iis (length ldps) ipvs (ldp[ipv := ?rp], ldi[ipv := ?ri])"
    by (simp add: inner)
  also have "\<dots> = Inr (fold (\<lambda>ipv l. l[ipv := map (\<lambda>ipb. ldm_row I emu mu (ldps ! ipb ! nat (iis ! ipv)))
                                          [0..<length ldps]]) ipvs (ldp[ipv := ?rp]),
                fold (\<lambda>ipv l. l[ipv := map (\<lambda>ipb. ldm_coeff z (ldps ! ipb ! nat (iis ! ipv)))
                                          [0..<length ldps]]) ipvs (ldi[ipv := ?ri]))"
    using Cons.prems sp si by (intro Cons.IH) simp_all
  finally show ?case by simp
qed


lemma eval_ldm_ok:
  assumes "library_ok mu z ldps nsamples" and "0 \<le> npv"
  shows "eval_ldm I g emu mu z ldps npv nsamples =
           (Inr (map (\<lambda>ipv. map (\<lambda>ipb. ldm_row I emu mu
                       (ldps ! ipb ! nat (int (raw g (used g + ipv)) mod nsamples)))
                     [0..<length ldps]) [0..<nat npv],
                 map (\<lambda>ipv. map (\<lambda>ipb. ldm_coeff z
                       (ldps ! ipb ! nat (int (raw g (used g + ipv)) mod nsamples)))
                     [0..<length ldps]) [0..<nat npv]),
            g\<lparr>used := used g + nat npv\<rparr>)"
proof -
  define iis where "iis = map (\<lambda>k. int (raw g (used g + k)) mod nsamples) [0..<nat npv]"
  define ldp0 where "ldp0 = zeros3 (nat npv) (length ldps) (length emu)"
  define ldi0 where "ldi0 = zeros2 (nat npv) (length ldps)"
  have ns: "0 < nsamples"
    using assms(1) by (simp add: library_ok_def)
  have draws: "randint_size 0 nsamples (nat npv) g = Inr (iis, g\<lparr>used := used g + nat npv\<rparr>)"
    using ns by (simp add: randint_size_def iis_def)
  have rng: "\<forall>ipv \<in> set [0..<nat npv]. ipv < nat npv \<and> 0 \<le> iis ! ipv \<and> iis ! ipv < nsamples"
    using ns by (simp add: iis_def)
  have "eval_ldm I g emu mu z ldps npv nsamples =
          (eval_ldm_pvs I emu mu z ldps iis (length ldps) [0..<nat npv] (ldp0, ldi0),
           g\<lparr>used := used g + nat npv\<rparr>)"
    using assms(2) by (simp add: eval_ldm_def Let_def draws ldp0_def ldi0_def)
  also have "eval_ldm_pvs I emu mu z ldps iis (length ldps) [0..<nat npv] (ldp0, ldi0) =
               Inr (fold (\<lambda>ipv l. l[ipv := map (\<lambda>ipb. ldm_row I emu mu (ldps ! ipb ! nat (iis ! ipv)))
                                          [0..<length ldps]]) [0..<nat npv] ldp0,
                    fold (\<lambda>ipv l. l[ipv := map (\<lambda>ipb. ldm_coeff z (ldps ! ipb ! nat (iis ! ipv)))
                                          [0..<length ldps]]) [0..<nat npv] ldi0)"
    by (rule eval_ldm_pvs_ok [OF assms(1) rng])
       (simp_all add: ldp0_def ldi0_def zeros3_def zeros2_def)
  also have "fold (\<lambda>ipv l. l[ipv := map (\<lambda>ipb. ldm_row I emu mu (ldps ! ipb ! nat (iis ! ipv)))
                                          [0..<length ldps]]) [0..<nat npv] ldp0 =
            map (\<lambda>ipv. map (\<lambda>ipb. ldm_row I emu mu (ldps ! ipb ! nat (iis ! ipv)))
                                          [0..<length ldps]) [0..<nat npv]"
    by (rule fold_update_upt_full) (simp add: ldp0_def zeros3_def)
  also have "fold (\<lambda>ipv l. l[ipv := map (\<lambda>ipb. ldm_coeff z (ldps ! ipb ! nat (iis ! ipv)))
                                          [0..<length ldps]]) [0..<nat npv] ldi0 =
            map (\<lambda>ipv. map (\<lambda>ipb. ldm_coeff z (ldps ! ipb ! nat (iis ! ipv)))
                                          [0..<length ldps]) [0..<nat npv]"
    by (rule fold_update_upt_full) (simp add: ldi0_def zeros2_def)
  also have "map (\<lambda>ipv. map (\<lambda>ipb. ldm_row I emu mu (ldps ! ipb ! nat (iis ! ipv)))
                                          [0..<length ldps]) [0..<nat npv] =
             map (\<lambda>ipv. map (\<lambda>ipb. ldm_row I emu mu
                       (ldps ! ipb ! nat (int (raw g (used g + ipv)) mod nsamples)))
                     [0..<length ldps]) [0..<nat npv]"
    by (rule map_cong) (simp_all add: iis_def)
  also have "map (\<lambda>ipv. map (\<lambda>ipb. ldm_coeff z (ldps ! ipb ! nat (iis ! ipv)))
                                          [0..<length ldps]) [0..<nat npv] =
             map (\<lambda>ipv. map (\<lambda>ipb. ldm_coeff z
                       (ldps ! ipb ! nat (int (raw g (used g + ipv)) mod nsamples)))
                     [0..<length ldps]) [0..<nat npv]"
    by (rule map_cong) (simp_all add: iis_def)
  finally show ?thesis .
qed








subsection \<open>Disk integration\<close>

lemma length_diff: "length (diff x) = length x - 1"
  by (simp add: diff_def)

lemma trapz_trapezoid_sum:
  assumes "length y = length x"
  shows "trapz y x = Inr (trapezoid_sum x y)"
proof -
  let ?n = "length x - 1"
  let ?s = "map2 (+) (tl y) (butlast y)"
  have len: "length (diff x) = ?n" "length ?s = ?n"
    using assms by (simp_all add: diff_def)
  have m: "mul_arr (diff x) ?s = Inr (map2 (*) (diff x) ?s)"
    using len by (simp add: mul_arr_def)
  have "sum_list (map (\<lambda>v. v / 2) (map2 (*) (diff x) ?s)) =
          (\<Sum>j = 0..<?n. (x ! Suc j - x ! j) * (y ! Suc j + y ! j) / 2)"
    using assms
    by (simp add: sum_list_sum_nth diff_def nth_tl nth_butlast)
  also have "\<dots> = (\<Sum>i = Suc 0..<Suc ?n. (x ! i - x ! (i - 1)) * (y ! i + y ! (i - 1)) / 2)"
    using sum.shift_bounds_Suc_ivl [of "\<lambda>i. (x ! i - x ! (i - 1)) * (y ! i + y ! (i - 1)) / 2" 0 ?n]
    by simp
  also have "\<dots> = trapezoid_sum x y"
  proof (cases x)
    case Nil
    then show ?thesis by (simp add: trapezoid_sum_def)
  next
    case (Cons a as)
    then show ?thesis by (simp add: trapezoid_sum_def)
  qed
  finally show ?thesis
    by (simp add: trapz_def m)
qed

lemma trapezoid_sum_constant_profile:
  assumes "z \<noteq> []"
  shows "trapezoid_sum z (map2 (*) z (replicate (length z) 1)) = ((last z)\<^sup>2 - (hd z)\<^sup>2) / 2"
proof -
  let ?n = "length z - 1"
  have one: "map2 (*) z (replicate (length z) 1) ! i = z ! i" if "i < length z" for i
    using that by simp
  have "trapezoid_sum z (map2 (*) z (replicate (length z) 1)) =
          (\<Sum>i = 1..<length z. (z ! i - z ! (i - 1)) * (z ! i + z ! (i - 1)) / 2)"
    unfolding trapezoid_sum_def
  proof (rule sum.cong)
    fix i
    assume "i \<in> {1..<length z}"
    then have "i < length z" "i - 1 < length z"
      by auto
    then show "(z ! i - z ! (i - 1)) *
               (map2 (*) z (replicate (length z) 1) ! i +
                map2 (*) z (replicate (length z) 1) ! (i - 1)) / 2 =
               (z ! i - z ! (i - 1)) * (z ! i + z ! (i - 1)) / 2"
      by (simp only: one)
  qed simp
  also have "\<dots> = (\<Sum>i = 1..<length z. ((z ! i)\<^sup>2 - (z ! (i - 1))\<^sup>2) / 2)"
    by (rule sum.cong) (simp_all add: power2_eq_square algebra_simps)
  also have "\<dots> = (\<Sum>j = 0..<?n. ((z ! Suc j)\<^sup>2 - (z ! j)\<^sup>2) / 2)"
    using assms sum.shift_bounds_Suc_ivl [of "\<lambda>i. ((z ! i)\<^sup>2 - (z ! (i - 1))\<^sup>2) / 2" 0 ?n]
    by (cases z) simp_all
  also have "\<dots> = (\<Sum>j = 0..<?n. (z ! Suc j)\<^sup>2 - (z ! j)\<^sup>2) / 2"
    by (simp add: sum_divide_distrib)
  also have "(\<Sum>j = 0..<?n. (z ! Suc j)\<^sup>2 - (z ! j)\<^sup>2) = (z ! ?n)\<^sup>2 - (z ! 0)\<^sup>2"
    by (rule sum_Suc_diff') simp
  also have "z ! ?n = last z"
    using assms by (simp add: last_conv_nth)
  also have "z ! 0 = hd z"
    using assms by (simp add: hd_conv_nth)
  finally show ?thesis .
qed

lemma ldm_coeff_constant_profile:
  assumes "z \<noteq> []" and "hd z = 0" and "last z = 1"
  shows "ldm_coeff z (replicate (length z) 1) = - pi"
  using assms by (simp add: ldm_coeff_def trapezoid_sum_constant_profile)

lemma length_linspace: "length (linspace a b n) = n"
  by (simp add: linspace_def)

lemma nth_int_z: "i < 200 \<Longrightarrow> int_z LDModel_init ! i = real i / 199"
  by (simp add: LDModel_init_def Let_def linspace_def)

lemma length_int_z: "length (int_z LDModel_init) = 200"
  by (simp add: LDModel_init_def Let_def linspace_def)

lemma length_int_mu: "length (int_mu LDModel_init) = 200"
  by (simp add: LDModel_init_def Let_def linspace_def)

lemma trapezoid_sum_positive_profile:
  assumes "length prof = 200" and "\<forall>v \<in> set prof. 0 < v"
  shows "0 < trapezoid_sum (int_z LDModel_init) (map2 (*) (int_z LDModel_init) prof)"
proof -
  let ?z = "int_z LDModel_init"
  have pos: "0 < (?z ! i - ?z ! (i - 1)) * (map2 (*) ?z prof ! i + map2 (*) ?z prof ! (i - 1)) / 2"
    if "i \<in> {1..<200}" for i
  proof -
    have i: "1 \<le> i" "i < 200" "i - 1 < 200" using that by auto
    have p: "0 < prof ! i" "0 < prof ! (i - 1)"
      using assms i by (simp_all add: all_set_conv_all_nth)
    have zi: "?z ! i = real i / 199" "?z ! (i - 1) = real (i - 1) / 199"
      using i by (simp_all add: nth_int_z)
    have d: "0 < ?z ! i - ?z ! (i - 1)"
      unfolding zi using i by (simp add: field_simps of_nat_diff)
    have a: "0 < ?z ! i * prof ! i"
      unfolding zi using i p by simp
    have b: "0 \<le> ?z ! (i - 1) * prof ! (i - 1)"
      unfolding zi using p by simp
    have m: "map2 (*) ?z prof ! i = ?z ! i * prof ! i"
      "map2 (*) ?z prof ! (i - 1) = ?z ! (i - 1) * prof ! (i - 1)"
      using i assms(1) by (simp_all add: length_int_z)
    have "0 < ?z ! i * prof ! i + ?z ! (i - 1) * prof ! (i - 1)"
      using a b by linarith
    then have "0 < (?z ! i - ?z ! (i - 1)) * (?z ! i * prof ! i + ?z ! (i - 1) * prof ! (i - 1))"
      using d by (rule mult_pos_pos [rotated])
    then show ?thesis
      unfolding m by simp
  qed
  have "0 < (\<Sum>i \<in> {1..<200}. (?z ! i - ?z ! (i - 1)) *
               (map2 (*) ?z prof ! i + map2 (*) ?z prof ! (i - 1)) / 2)"
    by (rule sum_pos) (use pos in simp_all)
  then show ?thesis
    by (simp add: trapezoid_sum_def length_int_z)
qed

lemma LDModel_integrate_ok:
  assumes "call (int_mu self) x = Inr prof" and "length prof = length (int_z self)"
  shows "LDModel_integrate call self x =
           Inr (2 * pi * trapezoid_sum (int_z self) (map2 (*) (int_z self) prof))"
  using assms by (simp add: LDModel_integrate_def mul_arr_def trapz_trapezoid_sum)

subsection \<open>LDTkLDModel.__call__\<close>

lemma ntrapz_loop_error: "ntrapz_loop x y is ii = Inl e \<Longrightarrow> e = OutOfBounds"
  by (induction "is" arbitrary: ii) (auto split: if_splits)

lemma ntrapz_error: "ntrapz x y = Inl e \<Longrightarrow> e = OutOfBounds"
  unfolding ntrapz_def Let_def by (rule ntrapz_loop_error)

lemma eval_ldm_body_error:
  "eval_ldm_body I emu mu z ldps iis ipv ipb s = Inl e \<Longrightarrow> e \<noteq> NotImplementedError"
  by (auto simp: eval_ldm_body_def get_profile_def interp_def mul_arr_def Let_def
           dest: ntrapz_error split: prod.splits sum.splits if_splits)

lemma eval_ldm_pbs_error:
  "eval_ldm_pbs I emu mu z ldps iis ipv ipbs s = Inl e \<Longrightarrow> e \<noteq> NotImplementedError"
  by (induction ipbs arbitrary: s) (auto dest: eval_ldm_body_error split: sum.splits)

lemma eval_ldm_pvs_error:
  "eval_ldm_pvs I emu mu z ldps iis npb ipvs s = Inl e \<Longrightarrow> e \<noteq> NotImplementedError"
  by (induction ipvs arbitrary: s) (auto dest: eval_ldm_pbs_error split: sum.splits)

lemma eval_ldm_error:
  "fst (eval_ldm I g emu mu z ldps npv nsamples) \<noteq> Inl NotImplementedError"
  by (auto simp: eval_ldm_def randint_size_def Let_def dest: eval_ldm_pvs_error
           split: if_splits sum.splits prod.splits)

lemma eval_ldm_frozen_body_error:
  "eval_ldm_frozen_body I emu mu z mldps ipb s = Inl e \<Longrightarrow> e \<noteq> NotImplementedError"
  by (auto simp: eval_ldm_frozen_body_def interp_def mul_arr_def
           dest: ntrapz_error split: prod.splits sum.splits if_splits)

lemma eval_ldm_frozen_pbs_error:
  "eval_ldm_frozen_pbs I emu mu z mldps ipbs s = Inl e \<Longrightarrow> e \<noteq> NotImplementedError"
  by (induction ipbs arbitrary: s) (auto dest: eval_ldm_frozen_body_error split: sum.splits)

lemma eval_ldm_frozen_error:
  "eval_ldm_frozen I emu mu z mldps npv \<noteq> Inl NotImplementedError"
  by (auto simp: eval_ldm_frozen_def Let_def dest: eval_ldm_frozen_pbs_error
           split: if_splits sum.splits)

lemma LDTkLDModel_call_error:
  "fst (LDTkLDModel_call I self w emu x) \<noteq> Inl NotImplementedError"
proof (cases "self_nsamples self \<le> 0")
  case True
  then show ?thesis
    by (simp add: LDTkLDModel_call_def randint_def)
next
  case False
  then show ?thesis
    using eval_ldm_frozen_error [of I emu "self_mu self" "self_z self" "self_mean_profiles self" "batch_size x"]
      eval_ldm_error [of I "nb_random w" emu "self_mu self" "self_z self" "self_profiles self" "batch_size x" "self_nsamples self"]
    by (auto simp: LDTkLDModel_call_def randint_def Let_def split: prod.splits)
qed

lemma LDTkLDModel_call_empty_range:
  assumes "self_nsamples self \<le> 0"
  shows "LDTkLDModel_call I self w emu x = (Inl EmptyRange, self, w)"
  using assms by (simp add: LDTkLDModel_call_def randint_def)

lemma LDTkLDModel_call_frozen:
  assumes "0 < self_nsamples self" and "self_frozen self"
  shows "LDTkLDModel_call I self w emu x =
           (eval_ldm_frozen I emu (self_mu self) (self_z self) (self_mean_profiles self)
              (batch_size x),
            self\<lparr>self_i := int (raw (np_random w) (used (np_random w))) mod self_nsamples self\<rparr>,
            w\<lparr>np_random := (np_random w)\<lparr>used := used (np_random w) + 1\<rparr>\<rparr>)"
  using assms by (simp add: LDTkLDModel_call_def randint_def Let_def)

lemma LDTkLDModel_call_sampled:
  assumes "0 < self_nsamples self" and "\<not> self_frozen self"
  shows "LDTkLDModel_call I self w emu x =
           (fst (eval_ldm I (nb_random w) emu (self_mu self) (self_z self) (self_profiles self)
                   (batch_size x) (self_nsamples self)),
            self\<lparr>self_i := int (raw (np_random w) (used (np_random w))) mod self_nsamples self\<rparr>,
            w\<lparr>np_random := (np_random w)\<lparr>used := used (np_random w) + 1\<rparr>,
              nb_random := snd (eval_ldm I (nb_random w) emu (self_mu self) (self_z self)
                                  (self_profiles self) (batch_size x) (self_nsamples self))\<rparr>)"
  using assms by (simp add: LDTkLDModel_call_def randint_def Let_def split: prod.splits)

lemma LDTkLDModel_call_result_frame:
  "fst (LDTkLDModel_call I (self\<lparr>self_i := k\<rparr>) w emu x) = fst (LDTkLDModel_call I self w emu x)"
proof (cases "0 < self_nsamples self")
  case False
  then show ?thesis by (simp add: LDTkLDModel_call_empty_range)
next
  case True
  then show ?thesis
    by (cases "self_frozen self") (simp_all add: LDTkLDModel_call_frozen LDTkLDModel_call_sampled)
qed


subsection \<open>Claims on the limb-darkening evaluation\<close>

lemma eval_ldm_rows:
  assumes "library_ok mu z ldps nsamples" and "0 \<le> npv"
  shows "\<exists>ldp ldi iis g'.
           eval_ldm I g emu mu z ldps npv nsamples = (Inr (ldp, ldi), g')
         \<and> randint_size 0 nsamples (nat npv) g = Inr (iis, g')
         \<and> length ldp = nat npv \<and> length ldi = nat npv
         \<and> (\<forall>ipv < nat npv. \<exists>k < nat nsamples. iis ! ipv = int k \<and>
               (\<forall>ipb < length ldps.
                   ldp ! ipv ! ipb = ldm_row I emu mu (ldps ! ipb ! k)
                 \<and> ldi ! ipv ! ipb = ldm_coeff z (ldps ! ipb ! k)))"
proof -
  define draw where "draw ipv = int (raw g (used g + ipv)) mod nsamples" for ipv
  define ldp where "ldp = map (\<lambda>ipv. map (\<lambda>ipb. ldm_row I emu mu (ldps ! ipb ! nat (draw ipv)))
                                [0..<length ldps]) [0..<nat npv]"
  define ldi where "ldi = map (\<lambda>ipv. map (\<lambda>ipb. ldm_coeff z (ldps ! ipb ! nat (draw ipv)))
                                [0..<length ldps]) [0..<nat npv]"
  define g' where "g' = g\<lparr>used := used g + nat npv\<rparr>"
  have ns: "0 < nsamples"
    using assms(1) by (simp add: library_ok_def)
  have run: "eval_ldm I g emu mu z ldps npv nsamples = (Inr (ldp, ldi), g')"
    unfolding ldp_def ldi_def g'_def draw_def by (rule eval_ldm_ok [OF assms])
  have draws: "randint_size 0 nsamples (nat npv) g = Inr (map draw [0..<nat npv], g')"
    using ns by (simp add: randint_size_def draw_def g'_def)
  have rows: "\<exists>k < nat nsamples. map draw [0..<nat npv] ! ipv = int k \<and>
               (\<forall>ipb < length ldps.
                   ldp ! ipv ! ipb = ldm_row I emu mu (ldps ! ipb ! k)
                 \<and> ldi ! ipv ! ipb = ldm_coeff z (ldps ! ipb ! k))"
    if "ipv < nat npv" for ipv
  proof (intro exI conjI allI impI)
    show "nat (draw ipv) < nat nsamples"
      using ns by (simp add: draw_def nat_less_iff)
    show "map draw [0..<nat npv] ! ipv = int (nat (draw ipv))"
      using that ns by (simp add: draw_def)
  next
    fix ipb
    assume "ipb < length ldps"
    then show "ldp ! ipv ! ipb = ldm_row I emu mu (ldps ! ipb ! nat (draw ipv))"
      and "ldi ! ipv ! ipb = ldm_coeff z (ldps ! ipb ! nat (draw ipv))"
      using that by (simp_all add: ldp_def ldi_def)
  qed
  have "length ldp = nat npv" "length ldi = nat npv"
    by (simp_all add: ldp_def ldi_def)
  with run draws rows show ?thesis
    by blast
qed


text \<open>
  Claim C8. In the non-frozen evaluation of a well-shaped library, every row \<open>ipv\<close> of the
  batch has one drawn sample index \<open>k = iis[ipv]\<close>, in \<open>[0, nsamples)\<close>, such that for every
  passband both outputs of the row come from the library profile \<open>ldps[ipb, k]\<close>, the element
  \<open>ldps ! ipb ! k\<close> of the library: the lookup of the code returns that element, the profile
  of the row is that element interpolated onto the caller's grid, and the coefficient of the
  row is \<open>-2 * pi\<close> times \<^verbatim>\<open>ntrapz\<close> of \<open>z\<close> times that element, which is \<open>-2 * pi\<close> times
  its trapezoidal sum.
\<close>

theorem eval_ldm_row_uses_one_draw:
  assumes "library_ok mu z ldps nsamples" and "0 \<le> npv"
  shows "\<exists>ldp ldi iis g'.
           eval_ldm I g emu mu z ldps npv nsamples = (Inr (ldp, ldi), g')
         \<and> randint_size 0 nsamples (nat npv) g = Inr (iis, g')
         \<and> length ldp = nat npv \<and> length ldi = nat npv
         \<and> (\<forall>ipv < nat npv. \<exists>k < nat nsamples. iis ! ipv = int k \<and>
               (\<forall>ipb < length ldps.
                   ldp ! ipv ! ipb = ldm_row I emu mu (ldps ! ipb ! k)
                 \<and> ldi ! ipv ! ipb = ldm_coeff z (ldps ! ipb ! k)
                 \<and> get_profile ldps ipb (iis ! ipv) = Inr (ldps ! ipb ! k)
                 \<and> interp I emu mu (ldps ! ipb ! k) = Inr (ldp ! ipv ! ipb)
                 \<and> mul_arr z (ldps ! ipb ! k) = Inr (map2 (*) z (ldps ! ipb ! k))
                 \<and> ntrapz z (map2 (*) z (ldps ! ipb ! k)) =
                     Inr (trapezoid_sum z (map2 (*) z (ldps ! ipb ! k)))
                 \<and> ldi ! ipv ! ipb = - 2 * pi * trapezoid_sum z (map2 (*) z (ldps ! ipb ! k))))"
proof -
  from eval_ldm_rows [OF assms, of I g emu]
  obtain ldp ldi iis g' where
    run: "eval_ldm I g emu mu z ldps npv nsamples = (Inr (ldp, ldi), g')" and
    draws: "randint_size 0 nsamples (nat npv) g = Inr (iis, g')" and
    len: "length ldp = nat npv" "length ldi = nat npv" and
    rows: "\<forall>ipv < nat npv. \<exists>k < nat nsamples. iis ! ipv = int k \<and>
               (\<forall>ipb < length ldps.
                   ldp ! ipv ! ipb = ldm_row I emu mu (ldps ! ipb ! k)
                 \<and> ldi ! ipv ! ipb = ldm_coeff z (ldps ! ipb ! k))"
    by blast
  have "\<exists>k < nat nsamples. iis ! ipv = int k \<and>
               (\<forall>ipb < length ldps.
                   ldp ! ipv ! ipb = ldm_row I emu mu (ldps ! ipb ! k)
                 \<and> ldi ! ipv ! ipb = ldm_coeff z (ldps ! ipb ! k)
                 \<and> get_profile ldps ipb (iis ! ipv) = Inr (ldps ! ipb ! k)
                 \<and> interp I emu mu (ldps ! ipb ! k) = Inr (ldp ! ipv ! ipb)
                 \<and> mul_arr z (ldps ! ipb ! k) = Inr (map2 (*) z (ldps ! ipb ! k))
                 \<and> ntrapz z (map2 (*) z (ldps ! ipb ! k)) =
                     Inr (trapezoid_sum z (map2 (*) z (ldps ! ipb ! k)))
                 \<and> ldi ! ipv ! ipb = - 2 * pi * trapezoid_sum z (map2 (*) z (ldps ! ipb ! k)))"
    if "ipv < nat npv" for ipv
  proof -
    from rows that obtain k where k: "k < nat nsamples" "iis ! ipv = int k"
      and cells: "\<forall>ipb < length ldps.
                   ldp ! ipv ! ipb = ldm_row I emu mu (ldps ! ipb ! k)
                 \<and> ldi ! ipv ! ipb = ldm_coeff z (ldps ! ipb ! k)"
      by blast
    have "ldp ! ipv ! ipb = ldm_row I emu mu (ldps ! ipb ! k)
          \<and> ldi ! ipv ! ipb = ldm_coeff z (ldps ! ipb ! k)
          \<and> get_profile ldps ipb (iis ! ipv) = Inr (ldps ! ipb ! k)
          \<and> interp I emu mu (ldps ! ipb ! k) = Inr (ldp ! ipv ! ipb)
          \<and> mul_arr z (ldps ! ipb ! k) = Inr (map2 (*) z (ldps ! ipb ! k))
          \<and> ntrapz z (map2 (*) z (ldps ! ipb ! k)) =
              Inr (trapezoid_sum z (map2 (*) z (ldps ! ipb ! k)))
          \<and> ldi ! ipv ! ipb = - 2 * pi * trapezoid_sum z (map2 (*) z (ldps ! ipb ! k))"
      if b: "ipb < length ldps" for ipb
    proof -
      let ?p = "ldps ! ipb ! k"
      have pb: "ldps ! ipb \<in> set ldps"
        using b by simp
      then have kk: "k < length (ldps ! ipb)"
        using assms(1) k(1) by (fastforce simp: library_ok_def)
      then have "?p \<in> set (ldps ! ipb)"
        by simp
      then have l: "length ?p = length mu" "length ?p = length z" "mu \<noteq> []"
        using assms(1) pb by (auto simp: library_ok_def)
      have c: "ldp ! ipv ! ipb = ldm_row I emu mu ?p" "ldi ! ipv ! ipb = ldm_coeff z ?p"
        using cells b by simp_all
      have "get_profile ldps ipb (iis ! ipv) = Inr ?p"
        using b kk k(2) by (simp add: get_profile_def Let_def)
      moreover have "interp I emu mu ?p = Inr (ldp ! ipv ! ipb)"
        using l c by (simp add: interp_def ldm_row_def)
      moreover have "mul_arr z ?p = Inr (map2 (*) z ?p)"
        using l by (simp add: mul_arr_def)
      moreover have "ntrapz z (map2 (*) z ?p) = Inr (trapezoid_sum z (map2 (*) z ?p))"
        using l by (simp add: ntrapz_trapezoid_sum)
      moreover have "ldi ! ipv ! ipb = - 2 * pi * trapezoid_sum z (map2 (*) z ?p)"
        using c by (simp add: ldm_coeff_def)
      ultimately show ?thesis
        using c by blast
    qed
    with k show ?thesis
      by blast
  qed
  with run draws len show ?thesis
    by blast
qed

theorem eval_ldm_row_uses_one_draw_witness:
  "library_ok [0, 1] [1, 0] [[[1, 3], [2, 4]]] 2 \<and> (0::int) \<le> 2 \<and>
   (\<exists>ldp ldi iis g'.
       eval_ldm lin_interp \<lparr>raw = \<lambda>n. n, used = 0\<rparr> [1 / 2] [0, 1] [1, 0] [[[1, 3], [2, 4]]] 2 2 =
         (Inr (ldp, ldi), g')
     \<and> randint_size 0 2 (nat 2) \<lparr>raw = \<lambda>n. n, used = 0\<rparr> = Inr (iis, g')
     \<and> iis = [0, 1]
     \<and> length ldp = nat 2 \<and> length ldi = nat 2
     \<and> ldp ! 0 ! 0 = ldm_row lin_interp [1 / 2] [0, 1] [1, 3] \<and> ldp ! 0 ! 0 = [2]
     \<and> ldi ! 0 ! 0 = ldm_coeff [1, 0] [1, 3] \<and> ldi ! 0 ! 0 = pi
     \<and> ldp ! 1 ! 0 = ldm_row lin_interp [1 / 2] [0, 1] [2, 4] \<and> ldp ! 1 ! 0 = [3]
     \<and> ldi ! 1 ! 0 = ldm_coeff [1, 0] [2, 4] \<and> ldi ! 1 ! 0 = 2 * pi)"
proof -
  let ?g = "\<lparr>raw = \<lambda>n. n, used = 0\<rparr>"
  let ?ldps = "[[[1, 3], [2, 4 :: real]]]"
  have ok: "library_ok [0, 1] [1, 0] ?ldps 2"
    by (simp add: library_ok_def)
  have nn: "(0::int) \<le> 2"
    by simp
  from eval_ldm_row_uses_one_draw [OF ok nn, of lin_interp ?g "[1 / 2]"]
  obtain ldp ldi iis g' where
    run: "eval_ldm lin_interp ?g [1 / 2] [0, 1] [1, 0] ?ldps 2 2 = (Inr (ldp, ldi), g')" and
    draws: "randint_size 0 2 (nat 2) ?g = Inr (iis, g')" and
    len: "length ldp = nat 2" "length ldi = nat 2" and
    rows: "\<forall>ipv < nat 2. \<exists>k < nat 2. iis ! ipv = int k \<and>
             (\<forall>ipb < length ?ldps.
                 ldp ! ipv ! ipb = ldm_row lin_interp [1 / 2] [0, 1] (?ldps ! ipb ! k)
               \<and> ldi ! ipv ! ipb = ldm_coeff [1, 0] (?ldps ! ipb ! k)
               \<and> get_profile ?ldps ipb (iis ! ipv) = Inr (?ldps ! ipb ! k)
               \<and> interp lin_interp [1 / 2] [0, 1] (?ldps ! ipb ! k) = Inr (ldp ! ipv ! ipb)
               \<and> mul_arr [1, 0] (?ldps ! ipb ! k) = Inr (map2 (*) [1, 0] (?ldps ! ipb ! k))
               \<and> ntrapz [1, 0] (map2 (*) [1, 0] (?ldps ! ipb ! k)) =
                   Inr (trapezoid_sum [1, 0] (map2 (*) [1, 0] (?ldps ! ipb ! k)))
               \<and> ldi ! ipv ! ipb =
                   - 2 * pi * trapezoid_sum [1, 0] (map2 (*) [1, 0] (?ldps ! ipb ! k)))"
    by (elim exE conjE) (rule that)
  have n2: "nat 2 = Suc (Suc 0)"
    by simp
  then have "[0..<nat 2] = [0, Suc 0]"
    by (simp add: upt_rec)
  then have iis: "iis = [0, 1]"
    using draws by (simp add: randint_size_def)
  have b0: "(0::nat) < length ?ldps"
    by simp
  have "(0::nat) < nat 2"
    by simp
  from rows [rule_format, OF this]
  obtain k0 where k0: "iis ! 0 = int k0" and
    c0: "\<forall>ipb < length ?ldps.
                 ldp ! 0 ! ipb = ldm_row lin_interp [1 / 2] [0, 1] (?ldps ! ipb ! k0)
               \<and> ldi ! 0 ! ipb = ldm_coeff [1, 0] (?ldps ! ipb ! k0)
               \<and> get_profile ?ldps ipb (iis ! 0) = Inr (?ldps ! ipb ! k0)
               \<and> interp lin_interp [1 / 2] [0, 1] (?ldps ! ipb ! k0) = Inr (ldp ! 0 ! ipb)
               \<and> mul_arr [1, 0] (?ldps ! ipb ! k0) = Inr (map2 (*) [1, 0] (?ldps ! ipb ! k0))
               \<and> ntrapz [1, 0] (map2 (*) [1, 0] (?ldps ! ipb ! k0)) =
                   Inr (trapezoid_sum [1, 0] (map2 (*) [1, 0] (?ldps ! ipb ! k0)))
               \<and> ldi ! 0 ! ipb =
                   - 2 * pi * trapezoid_sum [1, 0] (map2 (*) [1, 0] (?ldps ! ipb ! k0))"
    by (elim exE conjE) (rule that)
  have "(1::nat) < nat 2"
    by simp
  from rows [rule_format, OF this]
  obtain k1 where k1: "iis ! 1 = int k1" and
    c1: "\<forall>ipb < length ?ldps.
                 ldp ! 1 ! ipb = ldm_row lin_interp [1 / 2] [0, 1] (?ldps ! ipb ! k1)
               \<and> ldi ! 1 ! ipb = ldm_coeff [1, 0] (?ldps ! ipb ! k1)
               \<and> get_profile ?ldps ipb (iis ! 1) = Inr (?ldps ! ipb ! k1)
               \<and> interp lin_interp [1 / 2] [0, 1] (?ldps ! ipb ! k1) = Inr (ldp ! 1 ! ipb)
               \<and> mul_arr [1, 0] (?ldps ! ipb ! k1) = Inr (map2 (*) [1, 0] (?ldps ! ipb ! k1))
               \<and> ntrapz [1, 0] (map2 (*) [1, 0] (?ldps ! ipb ! k1)) =
                   Inr (trapezoid_sum [1, 0] (map2 (*) [1, 0] (?ldps ! ipb ! k1)))
               \<and> ldi ! 1 ! ipb =
                   - 2 * pi * trapezoid_sum [1, 0] (map2 (*) [1, 0] (?ldps ! ipb ! k1))"
    by (elim exE conjE) (rule that)
  have kk: "k0 = 0" "k1 = 1"
    using k0 k1 iis by simp_all
  have r0: "ldp ! 0 ! 0 = ldm_row lin_interp [1 / 2] [0, 1] [1, 3]"
    "ldi ! 0 ! 0 = ldm_coeff [1, 0] [1, 3]"
    using c0 [rule_format, OF b0] kk by simp_all
  have r1: "ldp ! 1 ! 0 = ldm_row lin_interp [1 / 2] [0, 1] [2, 4]"
    "ldi ! 1 ! 0 = ldm_coeff [1, 0] [2, 4]"
    using c1 [rule_format, OF b0] kk by simp_all
  have v: "ldm_row lin_interp [1 / 2] [0, 1] [1, 3] = [2]"
    "ldm_row lin_interp [1 / 2] [0, 1] [2, 4] = [3]"
    "ldm_coeff [1, 0] [1, 3] = pi" "ldm_coeff [1, 0] [2, 4] = 2 * pi"
    by (simp_all add: ldm_row_def lin_interp_def ldm_coeff_def trapezoid_sum_def eval_nat_numeral)
  have body: "eval_ldm lin_interp ?g [1 / 2] [0, 1] [1, 0] ?ldps 2 2 = (Inr (ldp, ldi), g')
     \<and> randint_size 0 2 (nat 2) ?g = Inr (iis, g')
     \<and> iis = [0, 1]
     \<and> length ldp = nat 2 \<and> length ldi = nat 2
     \<and> ldp ! 0 ! 0 = ldm_row lin_interp [1 / 2] [0, 1] [1, 3] \<and> ldp ! 0 ! 0 = [2]
     \<and> ldi ! 0 ! 0 = ldm_coeff [1, 0] [1, 3] \<and> ldi ! 0 ! 0 = pi
     \<and> ldp ! 1 ! 0 = ldm_row lin_interp [1 / 2] [0, 1] [2, 4] \<and> ldp ! 1 ! 0 = [3]
     \<and> ldi ! 1 ! 0 = ldm_coeff [1, 0] [2, 4] \<and> ldi ! 1 ! 0 = 2 * pi"
    using run draws iis len r0 r1 v by (intro conjI) (simp_all only:)
  have ex: "\<exists>ldp ldi iis g'.
       eval_ldm lin_interp ?g [1 / 2] [0, 1] [1, 0] ?ldps 2 2 = (Inr (ldp, ldi), g')
     \<and> randint_size 0 2 (nat 2) ?g = Inr (iis, g')
     \<and> iis = [0, 1]
     \<and> length ldp = nat 2 \<and> length ldi = nat 2
     \<and> ldp ! 0 ! 0 = ldm_row lin_interp [1 / 2] [0, 1] [1, 3] \<and> ldp ! 0 ! 0 = [2]
     \<and> ldi ! 0 ! 0 = ldm_coeff [1, 0] [1, 3] \<and> ldi ! 0 ! 0 = pi
     \<and> ldp ! 1 ! 0 = ldm_row lin_interp [1 / 2] [0, 1] [2, 4] \<and> ldp ! 1 ! 0 = [3]
     \<and> ldi ! 1 ! 0 = ldm_coeff [1, 0] [2, 4] \<and> ldi ! 1 ! 0 = 2 * pi"
    by (rule exI [of _ ldp], rule exI [of _ ldi], rule exI [of _ iis], rule exI [of _ g'])
       (rule body)
  show ?thesis
    by (intro conjI ok nn ex)
qed

text \<open>
  Claim C2. For every row and passband the coefficient computed by \<^verbatim>\<open>eval_ldm\<close> is the
  negative of \<open>2 * pi\<close> times the trapezoidal integral of \<open>z * I(z)\<close> over the library's \<open>z\<close>
  grid, for the profile \<open>I\<close> at a drawn sample index; for a profile that is constant 1 over a
  grid that starts at 0 and ends at 1 it is \<open>-pi\<close>. \<^verbatim>\<open>LDModel.integrate\<close> returns \<open>2 * pi\<close> times
  the trapezoidal integral, with no negative sign, of the profile its subclass's \<^verbatim>\<open>__call__\<close>
  returns on the integration grid, and the value is positive when that profile is positive
  everywhere.
\<close>

theorem disk_integration_sign:
  "(library_ok mu z ldps nsamples \<and> 0 \<le> npv \<longrightarrow>
      (\<exists>ldp ldi g'.
          eval_ldm I g emu mu z ldps npv nsamples = (Inr (ldp, ldi), g')
        \<and> (\<forall>ipv < nat npv. \<forall>ipb < length ldps. \<exists>k < nat nsamples.
              ldi ! ipv ! ipb = - (2 * pi * trapezoid_sum z (map2 (*) z (ldps ! ipb ! k)))
            \<and> (hd z = 0 \<and> last z = 1 \<and> ldps ! ipb ! k = replicate (length z) 1 \<longrightarrow>
                 ldi ! ipv ! ipb = - pi))))
   \<and> (call (int_mu self) x = Inr prof \<and> length prof = length (int_z self) \<longrightarrow>
        LDModel_integrate call self x =
          Inr (2 * pi * trapezoid_sum (int_z self) (map2 (*) (int_z self) prof)))
   \<and> (call (int_mu LDModel_init) x = Inr prof \<and> length prof = 200 \<and> (\<forall>v \<in> set prof. 0 < v) \<longrightarrow>
        (\<exists>v. LDModel_integrate call LDModel_init x = Inr v \<and> 0 < v))"
proof (intro conjI impI)
  assume h: "library_ok mu z ldps nsamples \<and> 0 \<le> npv"
  then have z: "z \<noteq> []"
    by (auto simp: library_ok_def)
  from h eval_ldm_rows [of mu z ldps nsamples npv I g emu]
  obtain ldp ldi iis g' where
    run: "eval_ldm I g emu mu z ldps npv nsamples = (Inr (ldp, ldi), g')" and
    rows: "\<forall>ipv < nat npv. \<exists>k < nat nsamples. iis ! ipv = int k \<and>
               (\<forall>ipb < length ldps.
                   ldp ! ipv ! ipb = ldm_row I emu mu (ldps ! ipb ! k)
                 \<and> ldi ! ipv ! ipb = ldm_coeff z (ldps ! ipb ! k))"
    by blast
  have "\<exists>k < nat nsamples.
              ldi ! ipv ! ipb = - (2 * pi * trapezoid_sum z (map2 (*) z (ldps ! ipb ! k)))
            \<and> (hd z = 0 \<and> last z = 1 \<and> ldps ! ipb ! k = replicate (length z) 1 \<longrightarrow>
                 ldi ! ipv ! ipb = - pi)"
    if "ipv < nat npv" and "ipb < length ldps" for ipv ipb
  proof -
    from rows that obtain k where k: "k < nat nsamples"
      and c: "ldi ! ipv ! ipb = ldm_coeff z (ldps ! ipb ! k)"
      by blast
    have "hd z = 0 \<and> last z = 1 \<and> ldps ! ipb ! k = replicate (length z) 1 \<longrightarrow>
            ldi ! ipv ! ipb = - pi"
      using c z by (auto simp: ldm_coeff_constant_profile)
    with k c show ?thesis
      unfolding ldm_coeff_def by blast
  qed
  with run show "\<exists>ldp ldi g'.
          eval_ldm I g emu mu z ldps npv nsamples = (Inr (ldp, ldi), g')
        \<and> (\<forall>ipv < nat npv. \<forall>ipb < length ldps. \<exists>k < nat nsamples.
              ldi ! ipv ! ipb = - (2 * pi * trapezoid_sum z (map2 (*) z (ldps ! ipb ! k)))
            \<and> (hd z = 0 \<and> last z = 1 \<and> ldps ! ipb ! k = replicate (length z) 1 \<longrightarrow>
                 ldi ! ipv ! ipb = - pi))"
    by blast
next
  assume "call (int_mu self) x = Inr prof \<and> length prof = length (int_z self)"
  then show "LDModel_integrate call self x =
          Inr (2 * pi * trapezoid_sum (int_z self) (map2 (*) (int_z self) prof))"
    by (simp add: LDModel_integrate_ok)
next
  assume h: "call (int_mu LDModel_init) x = Inr prof \<and> length prof = 200 \<and> (\<forall>v \<in> set prof. 0 < v)"
  then have "LDModel_integrate call LDModel_init x =
          Inr (2 * pi * trapezoid_sum (int_z LDModel_init) (map2 (*) (int_z LDModel_init) prof))"
    by (simp add: LDModel_integrate_ok length_int_z)
  moreover have "0 < 2 * pi * trapezoid_sum (int_z LDModel_init) (map2 (*) (int_z LDModel_init) prof)"
    using h trapezoid_sum_positive_profile [of prof] by simp
  ultimately show "\<exists>v. LDModel_integrate call LDModel_init x = Inr v \<and> 0 < v"
    by blast
qed


theorem disk_integration_sign_witness:
  "library_ok [1, 1 / 2, 0] [0, 1 / 2, 1] [[[1, 1, 1]]] 1
   \<and> (\<exists>ldp ldi g'.
         eval_ldm lin_interp \<lparr>raw = \<lambda>n. n, used = 0\<rparr> [1 / 2] [1, 1 / 2, 0] [0, 1 / 2, 1]
           [[[1, 1, 1]]] 1 1 = (Inr (ldp, ldi), g')
       \<and> ldi ! 0 ! 0 = - pi)
   \<and> (\<exists>v. LDModel_integrate (\<lambda>m x. Inr (replicate 200 1)) LDModel_init () = Inr v
          \<and> v = 2 * pi * trapezoid_sum (int_z LDModel_init)
                           (map2 (*) (int_z LDModel_init) (replicate 200 1))
          \<and> 0 < v)"
proof -
  have ok: "library_ok [1, 1 / 2, 0] [0, 1 / 2, 1] [[[1, 1, 1]]] 1"
    by (simp add: library_ok_def)
  note t = disk_integration_sign [of "[1, 1 / 2, 0]" "[0, 1 / 2, 1]" "[[[1, 1, 1]]]" 1 1
      lin_interp "\<lparr>raw = \<lambda>n. n, used = 0\<rparr>" "[1 / 2]"
      "\<lambda>m x. Inr (replicate 200 1)" LDModel_init "()" "replicate 200 1"]
  have "\<exists>ldp ldi g'.
         eval_ldm lin_interp \<lparr>raw = \<lambda>n. n, used = 0\<rparr> [1 / 2] [1, 1 / 2, 0] [0, 1 / 2, 1]
           [[[1, 1, 1]]] 1 1 = (Inr (ldp, ldi), g')
       \<and> ldi ! 0 ! 0 = - pi"
    using t ok by (auto simp: eval_nat_numeral)
  moreover have "\<exists>v. LDModel_integrate (\<lambda>m x. Inr (replicate 200 1)) LDModel_init () = Inr v
          \<and> v = 2 * pi * trapezoid_sum (int_z LDModel_init)
                           (map2 (*) (int_z LDModel_init) (replicate 200 1))
          \<and> 0 < v"
    using t by (auto simp: length_int_z)
  ultimately show ?thesis
    using ok by blast
qed



text \<open>
  Claim C10. A call of \<^verbatim>\<open>__call__\<close> on a model with \<open>nsamples > 0\<close>, frozen or not, changes
  the field \<^verbatim>\<open>_i\<close> only: it becomes the number drawn from \<open>[0, nsamples)\<close> by the interpreter's
  generator, and the grids, the profiles, the mean profiles, \<open>nsamples\<close>, \<open>npb\<close> and the frozen
  flag keep their values. The returned value is the same whatever \<^verbatim>\<open>_i\<close> held before the
  call; in the non-frozen mode it is the value of \<^verbatim>\<open>eval_ldm\<close>, which draws its own indices
  from the generator of the compiled code.
\<close>

theorem call_mutates_only_i:
  assumes "0 < self_nsamples self"
  shows "\<exists>r self' w' d.
           LDTkLDModel_call I self w emu x = (r, self', w')
         \<and> randint 0 (self_nsamples self) (np_random w) = Inr (d, np_random w')
         \<and> 0 \<le> d \<and> d < self_nsamples self
         \<and> self' = self\<lparr>self_i := d\<rparr>
         \<and> int_z self' = int_z self \<and> int_mu self' = int_mu self
         \<and> self_npb self' = self_npb self \<and> self_nsamples self' = self_nsamples self
         \<and> self_frozen self' = self_frozen self
         \<and> self_z self' = self_z self \<and> self_mu self' = self_mu self
         \<and> self_profiles self' = self_profiles self
         \<and> self_mean_profiles self' = self_mean_profiles self
         \<and> (\<forall>k. fst (LDTkLDModel_call I (self\<lparr>self_i := k\<rparr>) w emu x) = r)
         \<and> (\<not> self_frozen self \<longrightarrow>
              r = fst (eval_ldm I (nb_random w) emu (self_mu self) (self_z self)
                         (self_profiles self) (batch_size x) (self_nsamples self)))"
proof (cases "self_frozen self")
  case True
  show ?thesis
    using assms True
    by (simp add: LDTkLDModel_call_frozen [OF assms True] LDTkLDModel_call_result_frame
                  randint_def)
next
  case False
  show ?thesis
    using assms False
    by (simp add: LDTkLDModel_call_sampled [OF assms False] LDTkLDModel_call_result_frame
                  randint_def)
qed

theorem call_mutates_only_i_witness:
  "let M = \<lparr>int_z = int_z LDModel_init, int_mu = int_mu LDModel_init, self_i = 0, self_npb = 1,
            self_nsamples = 2, self_frozen = False, self_z = [1, 0], self_mu = [0, 1],
            self_profiles = [[[1, 3], [2, 4]]], self_mean_profiles = [[3 / 2, 7 / 2]]\<rparr>;
       W = \<lparr>np_random = \<lparr>raw = \<lambda>n. 3, used = 0\<rparr>, nb_random = \<lparr>raw = \<lambda>n. n, used = 0\<rparr>\<rparr>
   in 0 < self_nsamples M
    \<and> (\<exists>r self' w'.
          LDTkLDModel_call lin_interp M W [1 / 2] (Some [[0], [0]]) = (r, self', w')
        \<and> self' = M\<lparr>self_i := 1\<rparr>
        \<and> self_profiles self' = self_profiles M
        \<and> (\<forall>k. fst (LDTkLDModel_call lin_interp (M\<lparr>self_i := k\<rparr>) W [1 / 2] (Some [[0], [0]])) = r))"
proof -
  let ?M = "\<lparr>int_z = int_z LDModel_init, int_mu = int_mu LDModel_init, self_i = 0, self_npb = 1,
            self_nsamples = 2, self_frozen = False, self_z = [1, 0], self_mu = [0, 1],
            self_profiles = [[[1, 3], [2, 4]]], self_mean_profiles = [[3 / 2, 7 / 2]]\<rparr>"
  let ?W = "\<lparr>np_random = \<lparr>raw = \<lambda>n. 3, used = 0\<rparr>, nb_random = \<lparr>raw = \<lambda>n. n, used = 0\<rparr>\<rparr>"
  have h: "0 < self_nsamples ?M"
    by simp
  from call_mutates_only_i [OF h, of lin_interp ?W "[1 / 2]" "Some [[0], [0]]"]
  obtain r self' w' d where
    run: "LDTkLDModel_call lin_interp ?M ?W [1 / 2] (Some [[0], [0]]) = (r, self', w')" and
    d: "randint 0 (self_nsamples ?M) (np_random ?W) = Inr (d, np_random w')" and
    s: "self' = ?M\<lparr>self_i := d\<rparr>" and
    p: "self_profiles self' = self_profiles ?M" and
    k: "\<forall>k. fst (LDTkLDModel_call lin_interp (?M\<lparr>self_i := k\<rparr>) ?W [1 / 2] (Some [[0], [0]])) = r"
    by blast
  have "d = 1"
    using d by (simp add: randint_def)
  with run s p k h show ?thesis
    unfolding Let_def by blast
qed

text \<open>
  Claim C6. \<^verbatim>\<open>LDTkLDModel.integrate\<close> raises \<open>NotImplementedError\<close> for every model and
  every parameter vector. The batch evaluation \<^verbatim>\<open>__call__\<close> never raises that error, and the
  \<^verbatim>\<open>integrate\<close> of the base class returns a value for a subclass whose \<^verbatim>\<open>__call__\<close>
  evaluates a profile \<open>f\<close> on the integration grid.
\<close>

theorem sampled_integrate_not_supported:
  "LDTkLDModel_integrate self x = Inl NotImplementedError
   \<and> fst (LDTkLDModel_call I self w emu xs) \<noteq> Inl NotImplementedError
   \<and> LDModel_integrate (\<lambda>m x. Inr (map f m)) LDModel_init x =
       Inr (2 * pi * trapezoid_sum (int_z LDModel_init)
                       (map2 (*) (int_z LDModel_init) (map f (int_mu LDModel_init))))"
  by (simp add: LDTkLDModel_integrate_def LDTkLDModel_call_error LDModel_integrate_ok
                length_int_z length_int_mu)

subsection \<open>The time binner\<close>

lemmas downsample_time_unfold =
  downsample_time_def amax_def amin_def arange_def bin_edges_def digitize_def
  bin_body_def select_def mean_def std_def Let_def enumerate_eq_zip upt_rec eval_nat_numeral

lemma amin_le_amax:
  assumes "amax time = Inr tmax" and "amin time = Inr tmin"
  shows "tmin \<le> tmax"
proof (cases time)
  case Nil
  with assms show ?thesis by (simp add: amax_def)
next
  case (Cons v vs)
  have "tmax = Max (set (v # vs))"
    using assms(1) Cons Max.set_eq_fold [of v vs] by (simp add: amax_def)
  moreover have "tmin = Min (set (v # vs))"
    using assms(2) Cons Min.set_eq_fold [of v vs] by (simp add: amin_def)
  moreover have "Min (set (v # vs)) \<le> v" "v \<le> Max (set (v # vs))"
    by simp_all
  ultimately show ?thesis by linarith
qed

lemma downsample_time_no_bins:
  assumes "amax time = Inr tmax" and "amin time = Inr tmin"
    and "inttime \<noteq> 0" and "\<lceil>(tmax - tmin) / inttime\<rceil> = 0"
  shows "downsample_time time vals inttime = Inr ([], [], [])"
proof -
  have "\<not> \<lceil>(tmax - tmin) / inttime\<rceil> < 0"
    using assms(4) by linarith
  then show ?thesis
    using assms unfolding downsample_time_def Let_def
    by (simp add: arange_def bin_edges_def select_def del: ceiling_less_zero)
qed

lemma downsample_time_negative_bins:
  assumes "amax time = Inr tmax" and "amin time = Inr tmin"
    and "inttime \<noteq> 0" and "\<lceil>(tmax - tmin) / inttime\<rceil> < 0"
  shows "downsample_time time vals inttime = Inl NegativeDimensions"
  using assms unfolding downsample_time_def Let_def
  by (simp del: ceiling_less_zero)

text \<open>
  What one pass of the loop stores for bin \<open>bid\<close> at position \<open>i\<close>: nothing for an empty
  bin, so its standard error stays at the initial 0; NaN for a bin of one or two samples; the
  standard deviation of the bin's values over the square root of their count otherwise.
\<close>

lemma bin_body_standard_error:
  assumes "length vals = length bids"
  shows "bin_body time vals bids (i, bid) (bt, bv, be) =
           (let bmask = map (\<lambda>b. bid = b) bids; n = length (filter id bmask)
            in if n = 0 then Inr (bt, bv, be)
               else Inr (bt[i := Fin (mean (select bmask time))],
                         bv[i := Fin (mean (select bmask vals))],
                         be[i := (if 2 < n then Fin (std (select bmask vals) / sqrt (real n))
                                  else NaN)]))"
  using assms by (simp add: bin_body_def Let_def)

text \<open>
  Claim C1, evaluated on the code. The bin count is taken from \<open>max(time) - min(time)\<close>, but
  the first edge is \<open>time[0]\<close>. For the times \<open>0, 0, 0, 1\<close> and the width 1 the one bin starts
  at 0 and holds all four samples; for the same samples with the time 1 first the one bin
  starts at 1, not at the minimum 0, the three samples at time 0 fall before it and belong to
  no bin, and no bin is returned.
\<close>

theorem downsample_time_edge_origin_is_first_sample:
  "amin [1, 0, 0, 0] = Inr 0
   \<and> bin_edges [1, 0, 0, 0] 1 (arange \<lceil>(1 - 0) / 1 :: real\<rceil>) = [1]
   \<and> downsample_time [1, 0, 0, 0] [2, 2, 2, 2] 1 = Inr ([], [], [])
   \<and> bin_edges [0, 0, 0, 1] 1 (arange \<lceil>(1 - 0) / 1 :: real\<rceil>) = [0]
   \<and> downsample_time [0, 0, 0, 1] [2, 2, 2, 2] 1 = Inr ([Fin (1 / 4)], [Fin 2], [Fin 0])"
  by (simp add: downsample_time_unfold)

text \<open>
  Claim C3, as the code has it. The bin width is not checked. For a non-empty series, the
  width 0 raises the division error of \<open>duration / inttime\<close>; a negative width gives a bin
  count \<open>\<le> 0\<close>: when \<open>max(time) - min(time) < -inttime\<close> the count is 0 and three empty
  arrays are returned with no error, otherwise the count is negative and the allocation of
  the output arrays raises.
\<close>

theorem downsample_time_nonpositive_width:
  assumes "amax time = Inr tmax" and "amin time = Inr tmin" and "inttime \<le> 0"
  shows "downsample_time time vals inttime =
           (if inttime = 0 then Inl ZeroDivisionError
            else if tmax - tmin < - inttime then Inr ([], [], [])
            else Inl NegativeDimensions)"
proof (cases "inttime = 0")
  case True
  then show ?thesis using assms by (simp add: downsample_time_def)
next
  case False
  then have neg: "inttime < 0" using assms(3) by simp
  have d: "0 \<le> tmax - tmin" using amin_le_amax [OF assms(1,2)] by simp
  show ?thesis
  proof (cases "tmax - tmin < - inttime")
    case True
    have "(tmax - tmin) / inttime \<le> 0"
      using d neg by (simp add: divide_nonneg_neg)
    moreover have "- 1 < (tmax - tmin) / inttime"
      using True neg by (simp add: field_simps)
    ultimately have "\<lceil>(tmax - tmin) / inttime\<rceil> = 0"
      by (simp add: ceiling_eq_iff)
    then show ?thesis
      using downsample_time_no_bins [OF assms(1,2) False] True False by simp
  next
    case nb: False
    have "(tmax - tmin) / inttime \<le> - 1"
      using nb neg by (simp add: field_simps)
    then have "\<lceil>(tmax - tmin) / inttime\<rceil> \<le> - 1"
      by (simp add: ceiling_le_iff)
    then have "\<lceil>(tmax - tmin) / inttime\<rceil> < 0"
      by linarith
    from downsample_time_negative_bins [OF assms(1,2) False this] show ?thesis
      using nb False by simp
  qed
qed

theorem downsample_time_nonpositive_width_witness:
  "amax [1, 2] = Inr 2 \<and> amin [1, 2] = Inr 1 \<and> amax [1, 1] = Inr 1 \<and> amin [1, 1] = Inr 1
   \<and> downsample_time [1, 2] [5, 5] 0 = Inl ZeroDivisionError
   \<and> downsample_time [1, 1] [5, 5] (- 1) = Inr ([], [], [])
   \<and> downsample_time [1, 2] [5, 5] (- 1) = Inl NegativeDimensions"
  using downsample_time_nonpositive_width [of "[1, 2]" 2 1 0 "[5, 5]"]
    downsample_time_nonpositive_width [of "[1, 1]" 1 1 "- 1" "[5, 5]"]
    downsample_time_nonpositive_width [of "[1, 2]" 2 1 "- 1" "[5, 5]"]
  by (simp add: amax_def amin_def)

text \<open>
  Claim C3 as stated fails: the one-sample series with the width -1 is answered with three
  empty arrays, not with an error.
\<close>

theorem downsample_time_negative_width_counterexample:
  "downsample_time [1] [5] (- 1) = Inr ([], [], [])
   \<and> \<not> (\<exists>e. downsample_time [1] [5] (- 1) = Inl e)"
  by (simp add: downsample_time_unfold)

text \<open>
  Claim C4, as the code has it. For an empty time series the first statement,
  \<open>time.max()\<close>, raises: the call fails for every value array and every bin width, and no
  arrays are returned.
\<close>

theorem downsample_time_empty_series:
  "downsample_time [] vals inttime = Inl EmptyReduction"
  by (simp add: downsample_time_def amax_def)

text \<open>
  Claim C4 as stated fails: the empty series with the width 1 raises instead of
  returning three empty arrays.
\<close>

theorem downsample_time_empty_series_counterexample:
  "downsample_time [] [] 1 \<noteq> Inr ([], [], [])"
  by (simp add: downsample_time_def amax_def)

text \<open>
  Claim C5, evaluated on the code. The standard error of an empty bin keeps its initial
  value 0, which is finite, so the final mask keeps the bin. The series with the times 0 and 5
  and the width 1 has five bins with at most one sample each: the bins 0 and 4 hold one sample
  and are dropped, the empty bins 1, 2 and 3 are returned, with a NaN mean time, the mean
  value 0 and the standard error 0.
\<close>

theorem downsample_time_keeps_empty_bins:
  "downsample_time [0, 5] [1, 1] 1 =
     Inr ([NaN, NaN, NaN], [Fin 0, Fin 0, Fin 0], [Fin 0, Fin 0, Fin 0])"
  by (simp add: downsample_time_unfold)

end
